theory Spec2Isabelle
  imports Complex_Main
begin

section \<open>JavaScript numbers\<close>

text \<open>
  Every number of \<^verbatim>\<open>main.js\<close> is a JavaScript number. The model keeps the special
  values that decide the behaviour of the code (\<open>NaN\<close> and the two infinities) and
  takes the finite values as real numbers: finite arithmetic is exact here, so rounding,
  overflow of finite operands and the sign of zero are not modelled. A zero divisor is
  the positive zero, which is the only zero the divisor of \<^verbatim>\<open>cosineSimilarity\<close> can be
  (a product of two square roots).
\<close>

datatype jsnum = NaN | NInf | Fin real | PInf

text \<open>\<^verbatim>\<open>x + y\<close>\<close>

fun jsadd :: "jsnum \<Rightarrow> jsnum \<Rightarrow> jsnum" where
  "jsadd NaN y = NaN"
| "jsadd x NaN = NaN"
| "jsadd PInf NInf = NaN"
| "jsadd NInf PInf = NaN"
| "jsadd PInf y = PInf"
| "jsadd x PInf = PInf"
| "jsadd NInf y = NInf"
| "jsadd x NInf = NInf"
| "jsadd (Fin x) (Fin y) = Fin (x + y)"

text \<open>\<^verbatim>\<open>x * y\<close>\<close>

fun jsmul :: "jsnum \<Rightarrow> jsnum \<Rightarrow> jsnum" where
  "jsmul NaN y = NaN"
| "jsmul x NaN = NaN"
| "jsmul (Fin x) (Fin y) = Fin (x * y)"
| "jsmul (Fin x) PInf = (if x = 0 then NaN else if 0 < x then PInf else NInf)"
| "jsmul (Fin x) NInf = (if x = 0 then NaN else if 0 < x then NInf else PInf)"
| "jsmul PInf (Fin y) = (if y = 0 then NaN else if 0 < y then PInf else NInf)"
| "jsmul NInf (Fin y) = (if y = 0 then NaN else if 0 < y then NInf else PInf)"
| "jsmul PInf PInf = PInf"
| "jsmul PInf NInf = NInf"
| "jsmul NInf PInf = NInf"
| "jsmul NInf NInf = PInf"

text \<open>\<^verbatim>\<open>x / y\<close>: a division by zero raises nothing, it yields \<open>NaN\<close> or an infinity.\<close>

fun jsdiv :: "jsnum \<Rightarrow> jsnum \<Rightarrow> jsnum" where
  "jsdiv NaN y = NaN"
| "jsdiv x NaN = NaN"
| "jsdiv (Fin x) (Fin y) =
     (if y = 0 then (if x = 0 then NaN else if 0 < x then PInf else NInf)
      else Fin (x / y))"
| "jsdiv (Fin x) PInf = Fin 0"
| "jsdiv (Fin x) NInf = Fin 0"
| "jsdiv PInf (Fin y) = (if 0 \<le> y then PInf else NInf)"
| "jsdiv NInf (Fin y) = (if 0 \<le> y then NInf else PInf)"
| "jsdiv PInf PInf = NaN"
| "jsdiv PInf NInf = NaN"
| "jsdiv NInf PInf = NaN"
| "jsdiv NInf NInf = NaN"

text \<open>\<^verbatim>\<open>Math.sqrt(x)\<close>\<close>

fun jssqrt :: "jsnum \<Rightarrow> jsnum" where
  "jssqrt NaN = NaN"
| "jssqrt NInf = NaN"
| "jssqrt PInf = PInf"
| "jssqrt (Fin x) = (if x < 0 then NaN else Fin (sqrt x))"

text \<open>\<^verbatim>\<open>x > y\<close>: false as soon as one side is \<open>NaN\<close>.\<close>

fun gt :: "jsnum \<Rightarrow> jsnum \<Rightarrow> bool" where
  "gt NaN y = False"
| "gt x NaN = False"
| "gt NInf y = False"
| "gt x NInf = True"
| "gt PInf PInf = False"
| "gt PInf (Fin y) = True"
| "gt (Fin x) PInf = False"
| "gt (Fin x) (Fin y) = (y < x)"

text \<open>\<^verbatim>\<open>Math.abs(x)\<close> and \<^verbatim>\<open>Math.max(x, y)\<close>\<close>

fun jsabs :: "jsnum \<Rightarrow> jsnum" where
  "jsabs NaN = NaN"
| "jsabs NInf = PInf"
| "jsabs PInf = PInf"
| "jsabs (Fin x) = Fin \<bar>x\<bar>"

definition jsmax :: "jsnum \<Rightarrow> jsnum \<Rightarrow> jsnum" where
  "jsmax x y = (if x = NaN \<or> y = NaN then NaN else if gt y x then y else x)"

section \<open>The similarity scorer\<close>

text \<open>
  A feature vector or an audio frame is an array of numbers. Reading an array past its
  end yields \<^verbatim>\<open>undefined\<close> and raises nothing; \<^verbatim>\<open>undefined\<close> used in a product
  is \<open>NaN\<close>. \<open>elem v i\<close> is \<^verbatim>\<open>v[i]\<close> as an operand of \<^verbatim>\<open>*\<close>.
\<close>

type_synonym vec = "jsnum list"

definition elem :: "vec \<Rightarrow> nat \<Rightarrow> jsnum" where
  "elem v i = (if i < length v then v ! i else NaN)"

text \<open>
  The loop of \<^verbatim>\<open>cosineSimilarity\<close> (lines 62 to 66): it runs over the indices of
  \<^verbatim>\<open>vecA\<close> only and reads \<^verbatim>\<open>vecB\<close> at the same indices. The accumulator is
  \<^verbatim>\<open>(dotProduct, magA, magB)\<close>.
\<close>

function cosineLoop :: "vec \<Rightarrow> vec \<Rightarrow> nat \<Rightarrow> jsnum \<times> jsnum \<times> jsnum \<Rightarrow> jsnum \<times> jsnum \<times> jsnum" where
  "cosineLoop vecA vecB i (dotProduct, magA, magB) =
     (if i < length vecA then
        cosineLoop vecA vecB (i + 1)
          (jsadd dotProduct (jsmul (elem vecA i) (elem vecB i)),
           jsadd magA (jsmul (elem vecA i) (elem vecA i)),
           jsadd magB (jsmul (elem vecB i) (elem vecB i)))
      else (dotProduct, magA, magB))"
  by pat_completeness auto
termination
  by (relation "measure (\<lambda>(vecA, vecB, i, acc). length vecA - i)") auto

text \<open>
  \<^verbatim>\<open>cosineSimilarity\<close> (lines 58 to 70). No statement of it can raise when it is given
  two arrays, so the model is a total function to a number.
\<close>

definition cosineSimilarity :: "vec \<Rightarrow> vec \<Rightarrow> jsnum" where
  "cosineSimilarity vecA vecB =
     (case cosineLoop vecA vecB 0 (Fin 0, Fin 0, Fin 0) of
        (dotProduct, magA, magB) \<Rightarrow>
          jsdiv dotProduct (jsmul (jssqrt magA) (jssqrt magB)))"

text \<open>
  The magnitude of a vector as lines 64 and 67 compute it for \<^verbatim>\<open>vecA\<close>.
\<close>

definition magnitude :: "vec \<Rightarrow> jsnum" where
  "magnitude v = jssqrt (fst (snd (cosineLoop v v 0 (Fin 0, Fin 0, Fin 0))))"

section \<open>The state of the program\<close>

text \<open>
  The constants of lines 8 to 11. \<^verbatim>\<open>FFT_SIZE\<close> only reaches the transform library and
  the audio node, which are outside \<^verbatim>\<open>main.js\<close>.
\<close>

definition COOLDOWN_FRAMES :: int where
  "COOLDOWN_FRAMES = 10"

definition THRESHOLD :: jsnum where
  "THRESHOLD = Fin (23 / 100)"

definition SIMILARITY_THRESHOLD :: jsnum where
  "SIMILARITY_THRESHOLD = Fin (95 / 100)"

text \<open>
  \<^verbatim>\<open>bestMatch\<close> (line 79); the index is \<open>-1\<close> before any reference was selected.
\<close>

record bestMatch =
  score :: jsnum
  index :: int

text \<open>
  The text of the status line, one constructor for each call of \<^verbatim>\<open>setStatus\<close>. The two
  messages of a match keep the arguments of their templates: the reference number shown,
  \<^verbatim>\<open>bestMatch.index + 1\<close>, and the score before \<^verbatim>\<open>toFixed(2)\<close> formats it.
\<close>

datatype statusText =
    Welcome
  | NoReferences
  | Matched int jsnum
  | NoMatch int jsnum
  | Listening
  | MicDenied
  | Stopped

text \<open>
  An element of \<^verbatim>\<open>refSamples\<close>: the recorded payload and the feature vector, absent
  until line 86 stores it. The object URL of line 182 only feeds the list on the page.
\<close>

record 'blob refSample =
  blob :: 'blob
  features :: "vec option"

text \<open>
  The module variables of lines 4 to 14 that the detector and the match engine use, and
  the text of the status line. \<open>extractions\<close> is not a variable of the program: it is
  the trace of line 86, the positions in \<^verbatim>\<open>refSamples\<close> of the samples whose features
  that line computed, in the order of the computations. The counter and the cooldown are
  integers far below \<open>2 ^ 53\<close>, where JavaScript numbers count exactly.
\<close>

record 'blob state =
  counter :: int
  running :: bool
  cooldown :: int
  refSamples :: "'blob refSample list"
  status :: statusText
  extractions :: "nat list"

text \<open>
  What \<^verbatim>\<open>main.js\<close> calls and does not define. \<open>getFeatures\<close> is the function of lines
  52 to 56, which hands the buffer to the \<^verbatim>\<open>FFT\<close> class of a library; \<open>None\<close> when
  the library throws. \<open>decodeAudioData\<close> is
  \<^verbatim>\<open>(await audioCtx.decodeAudioData(await ref.blob.arrayBuffer())).getChannelData(0)\<close>
  of lines 85 and 86; \<open>None\<close> when one of the promises is rejected.
\<close>

record 'blob env =
  getFeatures :: "vec \<Rightarrow> vec option"
  decodeAudioData :: "'blob \<Rightarrow> vec option"

section \<open>The match engine\<close>

text \<open>Lines 85 and 86: the features of a sample, computed from its payload.\<close>

definition computeFeatures :: "'blob env \<Rightarrow> 'blob refSample \<Rightarrow> vec option" where
  "computeFeatures env ref =
     (case decodeAudioData env (blob ref) of
        None \<Rightarrow> None
      | Some buffer \<Rightarrow> getFeatures env buffer)"

text \<open>Lines 89 to 92: score one reference and keep it when it is strictly better.\<close>

definition compare :: "vec \<Rightarrow> vec \<Rightarrow> nat \<Rightarrow> bestMatch \<Rightarrow> bestMatch" where
  "compare popFeatures refFeatures i best =
     (let score = cosineSimilarity popFeatures refFeatures
      in if gt score (bestMatch.score best) then \<lparr>score = score, index = int i\<rparr> else best)"

text \<open>Lines 95 to 102: the decision, with its effects on the counter and the cooldown.\<close>

definition decide :: "bestMatch \<Rightarrow> 'blob state \<Rightarrow> 'blob state" where
  "decide best s =
     (if gt (score best) SIMILARITY_THRESHOLD then
        s\<lparr>counter := counter s + 1,
          status := Matched (index best + 1) (score best),
          cooldown := COOLDOWN_FRAMES\<rparr>
      else s\<lparr>status := NoMatch (index best + 1) (score best)\<rparr>)"

text \<open>
  \<^verbatim>\<open>analyzeAndCompare\<close> is an \<^verbatim>\<open>async\<close> function: it runs until an \<^verbatim>\<open>await\<close>,
  where it gives the control back, and goes on later. Its only awaits are those of line
  85, reached for a sample that has no features yet. An invocation waiting there is a
  \<open>task\<close>: its locals \<^verbatim>\<open>popFeatures\<close>, \<^verbatim>\<open>i\<close> and \<^verbatim>\<open>bestMatch\<close>. An invocation
  is waiting, or its promise is fulfilled, or it is rejected.
\<close>

datatype task = Task vec nat bestMatch

datatype progress = Await task | Finished | Failed

text \<open>
  The loop of lines 81 to 93 from the head of iteration \<open>i\<close> up to the next await, and
  the decision when the loop ends.
\<close>

function scan :: "vec \<Rightarrow> nat \<Rightarrow> bestMatch \<Rightarrow> 'blob state \<Rightarrow> 'blob state \<times> progress" where
  "scan popFeatures i best s =
     (if i < length (refSamples s) then
        (case features (refSamples s ! i) of
           None \<Rightarrow> (s, Await (Task popFeatures i best))
         | Some f \<Rightarrow> scan popFeatures (i + 1) (compare popFeatures f i best) s)
      else (decide best s, Finished))"
  by pat_completeness auto
termination
  by (relation "measure (\<lambda>(popFeatures, i, best, s). length (refSamples s) - i)") auto

declare cosineLoop.simps [simp del] scan.simps [simp del]

text \<open>
  The rest of iteration \<open>i\<close> after the awaits of line 85, and the loop from there on.
  The two awaits of that line are one step: nothing of the state is read or written
  between them. The sample of a waiting invocation is \<^verbatim>\<open>refSamples[i]\<close>: the model covers the
  executions in which \<^verbatim>\<open>loadReferences\<close> does not replace \<^verbatim>\<open>refSamples\<close> while an
  invocation waits. No task of such an execution has an index out of range; the model
  lets one fail.
\<close>

definition resume :: "'blob env \<Rightarrow> task \<Rightarrow> 'blob state \<Rightarrow> 'blob state \<times> progress" where
  "resume env t s =
     (case t of Task popFeatures i best \<Rightarrow>
        if i < length (refSamples s) then
          (case computeFeatures env (refSamples s ! i) of
             None \<Rightarrow> (s, Failed)
           | Some f \<Rightarrow>
               scan popFeatures (i + 1) (compare popFeatures f i best)
                 (s\<lparr>refSamples := (refSamples s)[i := (refSamples s ! i)\<lparr>features := Some f\<rparr>],
                    extractions := extractions s @ [i]\<rparr>))
        else (s, Failed))"

text \<open>
  A call of \<^verbatim>\<open>analyzeAndCompare\<close> (lines 72 to 79) up to its first await or its end.
\<close>

definition analyzeAndCompare_call :: "'blob env \<Rightarrow> vec \<Rightarrow> 'blob state \<Rightarrow> 'blob state \<times> progress" where
  "analyzeAndCompare_call env popBuffer s =
     (if length (refSamples s) = 0 then (s\<lparr>status := NoReferences\<rparr>, Finished)
      else
        (case getFeatures env popBuffer of
           None \<Rightarrow> (s, Failed)
         | Some popFeatures \<Rightarrow> scan popFeatures 0 \<lparr>score = Fin (- 1), index = - 1\<rparr> s))"

text \<open>
  An invocation run to its end with nothing else running in between: every await is
  followed at once by its continuation. Each continuation starts at a later index, so
  the run ends.
\<close>

function settle :: "'blob env \<Rightarrow> 'blob state \<times> progress \<Rightarrow> 'blob state \<times> progress" where
  "settle env (s, Await t) = settle env (resume env t s)"
| "settle env (s, Finished) = (s, Finished)"
| "settle env (s, Failed) = (s, Failed)"
  by pat_completeness auto
termination
proof (relation "measure (\<lambda>(env, s, p).
    case p of Await (Task popFeatures i best) \<Rightarrow> Suc (length (refSamples s) - i) | _ \<Rightarrow> 0)")
  show "wf (measure (\<lambda>(env :: 'blob env, s, p).
      case p of Await (Task popFeatures i best) \<Rightarrow> Suc (length (refSamples s) - i) | _ \<Rightarrow> 0))"
    by simp
next
  fix env :: "'blob env" and s :: "'blob state" and t
  have waits: "scan popFeatures i best s0 = (s', Await (Task popFeatures' j best')) \<Longrightarrow>
      i \<le> j \<and> j < length (refSamples s') \<and> length (refSamples s') = length (refSamples s0)"
    for popFeatures popFeatures' i j best best' and s0 s' :: "'blob state"
  proof (induction popFeatures i best s0 rule: scan.induct)
    case (1 popFeatures i best s)
    show ?case
    proof (cases "i < length (refSamples s)")
      case True
      show ?thesis
      proof (cases "features (refSamples s ! i)")
        case None
        with True "1.prems" show ?thesis
          by (simp add: scan.simps [of popFeatures i best s])
      next
        case (Some f)
        with True "1.prems" have "scan popFeatures (i + 1) (compare popFeatures f i best) s =
            (s', Await (Task popFeatures' j best'))"
          by (simp add: scan.simps [of popFeatures i best s])
        from "1.IH" [OF True Some this] show ?thesis by simp
      qed
    next
      case False
      with "1.prems" show ?thesis
        by (simp add: scan.simps [of popFeatures i best s])
    qed
  qed
  show "((env, resume env t s), (env, s, Await t)) \<in> measure (\<lambda>(env, s, p).
      case p of Await (Task popFeatures i best) \<Rightarrow> Suc (length (refSamples s) - i) | _ \<Rightarrow> 0)"
  proof (cases t)
    case (Task popFeatures i best)
    obtain s' p where r: "resume env t s = (s', p)"
      by (cases "resume env t s") auto
    show ?thesis
    proof (cases p)
      case (Await t')
      obtain popFeatures' j best' where t': "t' = Task popFeatures' j best'"
        by (cases t') auto
      from r Await t' Task
      have "i < j \<and> j < length (refSamples s') \<and> length (refSamples s') = length (refSamples s)"
        by (auto simp: resume_def split: if_splits option.splits dest!: waits)
      then have "Suc (length (refSamples s') - j) < Suc (length (refSamples s) - i)"
        by arith
      then show ?thesis
        using r Await t' Task by simp
    qed (use r Task in auto)
  qed
qed

text \<open>
  \<^verbatim>\<open>analyzeAndCompare\<close> from its call to the settlement of its promise, when no other
  handler runs while it waits.
\<close>

definition analyzeAndCompare :: "'blob env \<Rightarrow> vec \<Rightarrow> 'blob state \<Rightarrow> 'blob state \<times> progress" where
  "analyzeAndCompare env popBuffer s = settle env (analyzeAndCompare_call env popBuffer s)"

section \<open>The detector\<close>

text \<open>Lines 122 to 125: the peak absolute amplitude of a frame.\<close>

definition peak :: "vec \<Rightarrow> jsnum" where
  "peak input = foldl (\<lambda>max x. jsmax max (jsabs x)) (Fin 0) input"

text \<open>
  The handler of \<^verbatim>\<open>audioprocess\<close> events (lines 120 to 133). It does not wait for
  the promise of \<^verbatim>\<open>analyzeAndCompare\<close>: the result is the state when the handler
  returns and, when line 131 ran, how far the invocation got.
\<close>

definition onaudioprocess :: "'blob env \<Rightarrow> vec \<Rightarrow> 'blob state \<Rightarrow> 'blob state \<times> progress option" where
  "onaudioprocess env input s =
     (let max = peak input
      in if 0 < cooldown s then (s\<lparr>cooldown := cooldown s - 1\<rparr>, None)
         else if gt max THRESHOLD then
           (case analyzeAndCompare_call env input s of (s', p) \<Rightarrow> (s', Some p))
         else (s, None))"

text \<open>
  One frame, and a sequence of frames, when the invocation a frame starts is settled
  before the next event is handled.
\<close>

definition frame :: "'blob env \<Rightarrow> 'blob state \<Rightarrow> vec \<Rightarrow> 'blob state" where
  "frame env s input =
     (case onaudioprocess env input s of
        (s', None) \<Rightarrow> s'
      | (s', Some p) \<Rightarrow> fst (settle env (s', p)))"

definition frames :: "'blob env \<Rightarrow> 'blob state \<Rightarrow> vec list \<Rightarrow> 'blob state" where
  "frames env s inputs = foldl (frame env) s inputs"

text \<open>
  \<^verbatim>\<open>startCounter\<close> (lines 106 to 138); \<open>granted\<close> tells whether lines 108 to 115
  acquired the microphone and built the audio nodes, or threw into the \<^verbatim>\<open>catch\<close>.
  \<^verbatim>\<open>stopCounter\<close> (lines 140 to 146). Neither assigns \<^verbatim>\<open>cooldown\<close>.
\<close>

definition startCounter :: "bool \<Rightarrow> 'blob state \<Rightarrow> 'blob state" where
  "startCounter granted s =
     (if granted then s\<lparr>status := Listening, running := True\<rparr>
      else s\<lparr>status := MicDenied\<rparr>)"

definition stopCounter :: "'blob state \<Rightarrow> 'blob state" where
  "stopCounter s = s\<lparr>status := Stopped, running := False\<rparr>"

text \<open>
  \<^verbatim>\<open>loadReferences\<close> (lines 180 to 184). Modelled from the spec: \<^verbatim>\<open>storage.js\<close> is
  missing, and \<^verbatim>\<open>getAllReferences\<close> returns the ordered sequence of the stored records,
  an identifier and the raw payload each. \<open>refsFromDB\<close> is the sequence of the payloads;
  a record holds no feature vector, so the objects line 182 builds have none.
\<close>

definition loadReferences :: "'blob list \<Rightarrow> 'blob state \<Rightarrow> 'blob state" where
  "loadReferences refsFromDB s =
     s\<lparr>refSamples := map (\<lambda>b. \<lparr>blob = b, features = None\<rparr>) refsFromDB\<rparr>"

text \<open>
  The state after \<^verbatim>\<open>main\<close> (lines 186 to 190), from the initial values of lines 4 to 14.
\<close>

definition initial :: "'blob list \<Rightarrow> 'blob state" where
  "initial refsFromDB =
     (loadReferences refsFromDB
        \<lparr>counter = 0, running = False, cooldown = 0, refSamples = [],
         status = Welcome, extractions = []\<rparr>)\<lparr>status := Welcome\<rparr>"

section \<open>Events in any order\<close>






section \<open>Vocabulary of the specification\<close>

text \<open>
  The three reports of the match engine, read from the status line, and the three states
  of the detector, read from \<^verbatim>\<open>running\<close> and \<^verbatim>\<open>cooldown\<close>.
\<close>

datatype outcome = ACCEPT | REJECT | NO_REFERENCES

fun reported :: "statusText \<Rightarrow> outcome option" where
  "reported (Matched k x) = Some ACCEPT"
| "reported (NoMatch k x) = Some REJECT"
| "reported NoReferences = Some NO_REFERENCES"
| "reported other = None"

datatype detectorState = IDLE | ARMED | COOLING

definition detector :: "'blob state \<Rightarrow> detectorState" where
  "detector s = (if \<not> running s then IDLE else if 0 < cooldown s then COOLING else ARMED)"

text \<open>
  The features line 89 reads for a sample: the stored ones, or those line 86 computes.
  \<open>cache\<close> is the sample once a match has passed it.
\<close>

definition referenceFeatures :: "'blob env \<Rightarrow> 'blob refSample \<Rightarrow> vec option" where
  "referenceFeatures env ref =
     (case features ref of None \<Rightarrow> computeFeatures env ref | Some f \<Rightarrow> Some f)"

definition cache :: "'blob env \<Rightarrow> 'blob refSample \<Rightarrow> 'blob refSample" where
  "cache env ref = ref\<lparr>features := referenceFeatures env ref\<rparr>"


text \<open>
  The search of lines 79 to 93 as a function of the scores of the references alone, from
  position \<open>i\<close> and the best match so far.
\<close>

fun bestOf :: "jsnum list \<Rightarrow> nat \<Rightarrow> bestMatch \<Rightarrow> bestMatch" where
  "bestOf [] i best = best"
| "bestOf (x # rest) i best =
     bestOf rest (i + 1)
       (if gt x (score best) then \<lparr>score = x, index = int i\<rparr> else best)"

text \<open>
  The state once a run that stood at position \<open>i\<close> has passed every sample from there
  on: each of them holds its features, and the trace has grown by those that held none.
\<close>

definition passed :: "'blob env \<Rightarrow> nat \<Rightarrow> 'blob state \<Rightarrow> 'blob state" where
  "passed env i s =
     s\<lparr>refSamples := take i (refSamples s) @ map (cache env) (drop i (refSamples s)),
       extractions := extractions s @
         filter (\<lambda>j. features (refSamples s ! j) = None) [i..<length (refSamples s)]\<rparr>"

text \<open>
  An environment for the examples: a payload is the decoded buffer itself, and the
  transform returns its argument.
\<close>

definition identityEnv :: "vec env" where
  "identityEnv = \<lparr>getFeatures = Some, decodeAudioData = Some\<rparr>"


section \<open>Facts about the numbers and the scorer\<close>

text \<open>
  \<open>NaN\<close> absorbs every operation and is greater than nothing. The loop of the scorer
  reads the second vector only below the length of the first; a \<open>NaN\<close> in the dot
  product stays; and the sums of a vector of zeros are zero.
\<close>

lemma jsadd_NaN_right [simp]: "jsadd x NaN = NaN"
  by (cases x) simp_all

lemma jsmul_NaN_right [simp]: "jsmul x NaN = NaN"
  by (cases x) simp_all

lemma jsdiv_NaN_right [simp]: "jsdiv x NaN = NaN"
  by (cases x) simp_all

lemma gt_NaN_right [simp]: "gt x NaN = False"
  by (cases x) simp_all

lemma elem_take: "i < n \<Longrightarrow> elem (take n v) i = elem v i"
  by (simp add: elem_def)

lemma cosineLoop_take:
  "cosineLoop vecA (take (length vecA) vecB) i acc = cosineLoop vecA vecB i acc"
proof (induction vecA vecB i acc rule: cosineLoop.induct)
  case (1 vecA vecB i dotProduct magA magB)
  show ?case
  proof (cases "i < length vecA")
    case True
    then show ?thesis
      using "1.IH" [OF True]
      by (simp add: cosineLoop.simps [of vecA _ i] elem_take)
  next
    case False
    then show ?thesis
      by (simp add: cosineLoop.simps [of vecA _ i])
  qed
qed

lemma cosineLoop_NaN_sticky:
  "fst acc = NaN \<Longrightarrow> fst (cosineLoop vecA vecB i acc) = NaN"
proof (induction vecA vecB i acc rule: cosineLoop.induct)
  case (1 vecA vecB i dotProduct magA magB)
  show ?case
  proof (cases "i < length vecA")
    case True
    then show ?thesis
      using "1.IH" [OF True] "1.prems"
      by (simp add: cosineLoop.simps [of vecA vecB i])
  next
    case False
    then show ?thesis
      using "1.prems" by (simp add: cosineLoop.simps [of vecA vecB i])
  qed
qed

lemma cosineLoop_short:
  "i \<le> length vecB \<Longrightarrow> length vecB < length vecA \<Longrightarrow>
   fst (cosineLoop vecA vecB i acc) = NaN"
proof (induction vecA vecB i acc rule: cosineLoop.induct)
  case (1 vecA vecB i dotProduct magA magB)
  from "1.prems" have lt: "i < length vecA" by simp
  show ?case
  proof (cases "i = length vecB")
    case True
    then show ?thesis
      using lt by (simp add: cosineLoop.simps [of vecA vecB "length vecB"] elem_def cosineLoop_NaN_sticky)
  next
    case False
    with "1.prems" have "i + 1 \<le> length vecB" by simp
    then show ?thesis
      using "1.IH" [OF lt _ "1.prems"(2)] lt
      by (simp add: cosineLoop.simps [of vecA vecB i])
  qed
qed

lemma jsmul_zero_left: "jsmul (Fin 0) y = Fin 0 \<or> jsmul (Fin 0) y = NaN"
  by (cases y) simp_all

lemma jsmul_zero_right: "jsmul x (Fin 0) = Fin 0 \<or> jsmul x (Fin 0) = NaN"
  by (cases x) simp_all

lemma jsadd_zero_or_NaN:
  "d = Fin 0 \<or> d = NaN \<Longrightarrow> p = Fin 0 \<or> p = NaN \<Longrightarrow> jsadd d p = Fin 0 \<or> jsadd d p = NaN"
  by auto

lemma jsdiv_zero_or_NaN:
  "d = Fin 0 \<or> d = NaN \<Longrightarrow> m = Fin 0 \<or> m = NaN \<Longrightarrow> jsdiv d m = NaN"
  by auto

lemma cosineLoop_zero_left:
  "\<forall>x\<in>set vecA. x = Fin 0 \<Longrightarrow> fst acc = Fin 0 \<or> fst acc = NaN \<Longrightarrow> fst (snd acc) = Fin 0 \<Longrightarrow>
   (fst (cosineLoop vecA vecB i acc) = Fin 0 \<or> fst (cosineLoop vecA vecB i acc) = NaN) \<and>
   fst (snd (cosineLoop vecA vecB i acc)) = Fin 0"
proof (induction vecA vecB i acc rule: cosineLoop.induct)
  case (1 vecA vecB i dotProduct magA magB)
  show ?case
  proof (cases "i < length vecA")
    case True
    with "1.prems"(1) have e: "elem vecA i = Fin 0"
      by (simp add: elem_def)
    have "jsadd dotProduct (jsmul (Fin 0) (elem vecB i)) = Fin 0 \<or>
          jsadd dotProduct (jsmul (Fin 0) (elem vecB i)) = NaN"
      using "1.prems"(2) jsmul_zero_left [of "elem vecB i"] by (intro jsadd_zero_or_NaN) simp_all
    then show ?thesis
      using "1.IH" [OF True "1.prems"(1)] "1.prems"(3) True e
      by (simp add: cosineLoop.simps [of vecA vecB i])
  next
    case False
    then show ?thesis
      using "1.prems" by (simp add: cosineLoop.simps [of vecA vecB i])
  qed
qed

lemma cosineLoop_zero_right:
  "length vecA \<le> length vecB \<Longrightarrow> \<forall>x\<in>set vecB. x = Fin 0 \<Longrightarrow>
   fst acc = Fin 0 \<or> fst acc = NaN \<Longrightarrow> snd (snd acc) = Fin 0 \<Longrightarrow>
   (fst (cosineLoop vecA vecB i acc) = Fin 0 \<or> fst (cosineLoop vecA vecB i acc) = NaN) \<and>
   snd (snd (cosineLoop vecA vecB i acc)) = Fin 0"
proof (induction vecA vecB i acc rule: cosineLoop.induct)
  case (1 vecA vecB i dotProduct magA magB)
  show ?case
  proof (cases "i < length vecA")
    case True
    with "1.prems"(1,2) have e: "elem vecB i = Fin 0"
      by (simp add: elem_def)
    have "jsadd dotProduct (jsmul (elem vecA i) (Fin 0)) = Fin 0 \<or>
          jsadd dotProduct (jsmul (elem vecA i) (Fin 0)) = NaN"
      using "1.prems"(3) jsmul_zero_right [of "elem vecA i"] by (intro jsadd_zero_or_NaN) simp_all
    then show ?thesis
      using "1.IH" [OF True "1.prems"(1,2)] "1.prems"(4) True e
      by (simp add: cosineLoop.simps [of vecA vecB i])
  next
    case False
    then show ?thesis
      using "1.prems" by (simp add: cosineLoop.simps [of vecA vecB i])
  qed
qed

lemma jsmul_self_cases:
  "(\<exists>r. x = Fin r \<and> jsmul x x = Fin (r * r)) \<or> jsmul x x = NaN \<or> jsmul x x = PInf"
  by (cases x) simp_all

lemma magA_not_finite:
  "fst (snd acc) = NaN \<or> fst (snd acc) = PInf \<Longrightarrow>
   fst (snd (cosineLoop vecA vecB i acc)) = NaN \<or> fst (snd (cosineLoop vecA vecB i acc)) = PInf"
proof (induction vecA vecB i acc rule: cosineLoop.induct)
  case (1 vecA vecB i dotProduct magA magB)
  show ?case
  proof (cases "i < length vecA")
    case True
    have "jsadd magA (jsmul (elem vecA i) (elem vecA i)) = NaN \<or>
          jsadd magA (jsmul (elem vecA i) (elem vecA i)) = PInf"
      using "1.prems" jsmul_self_cases [of "elem vecA i"] by auto
    then show ?thesis
      using "1.IH" [OF True] True by (simp add: cosineLoop.simps [of vecA vecB i])
  next
    case False
    then show ?thesis
      using "1.prems" by (simp add: cosineLoop.simps [of vecA vecB i])
  qed
qed

lemma magA_zero_iff:
  "fst (snd acc) = Fin m \<Longrightarrow> 0 \<le> m \<Longrightarrow>
   jssqrt (fst (snd (cosineLoop vecA vecB i acc))) = Fin 0 \<longleftrightarrow>
     m = 0 \<and> (\<forall>j. i \<le> j \<and> j < length vecA \<longrightarrow> vecA ! j = Fin 0)"
proof (induction vecA vecB i acc arbitrary: m rule: cosineLoop.induct)
  case (1 vecA vecB i dotProduct magA magB)
  show ?case
  proof (cases "i < length vecA")
    case True
    let ?acc = "(jsadd dotProduct (jsmul (elem vecA i) (elem vecB i)),
           jsadd magA (jsmul (elem vecA i) (elem vecA i)),
           jsadd magB (jsmul (elem vecB i) (elem vecB i)))"
    have unfold: "cosineLoop vecA vecB i (dotProduct, magA, magB) = cosineLoop vecA vecB (i + 1) ?acc"
      using True by (simp add: cosineLoop.simps [of vecA vecB i])
    have split: "(\<forall>j. i \<le> j \<and> j < length vecA \<longrightarrow> vecA ! j = Fin 0) \<longleftrightarrow>
        vecA ! i = Fin 0 \<and> (\<forall>j. i + 1 \<le> j \<and> j < length vecA \<longrightarrow> vecA ! j = Fin 0)"
    proof (intro iffI conjI allI impI)
      fix j
      assume a: "vecA ! i = Fin 0 \<and> (\<forall>j. i + 1 \<le> j \<and> j < length vecA \<longrightarrow> vecA ! j = Fin 0)"
        and j: "i \<le> j \<and> j < length vecA"
      show "vecA ! j = Fin 0"
      proof (cases "j = i")
        case True
        with a show ?thesis by simp
      next
        case False
        with j have "i + 1 \<le> j" by simp
        with a j show ?thesis by blast
      qed
    qed (use True in auto)
    from "1.prems" have magA: "magA = Fin m" by simp
    from jsmul_self_cases [of "elem vecA i"] show ?thesis
    proof (elim disjE exE conjE)
      fix r assume e: "elem vecA i = Fin r" and sq: "jsmul (elem vecA i) (elem vecA i) = Fin (r * r)"
      have new: "fst (snd ?acc) = Fin (m + r * r)"
        using magA sq by simp
      have nonneg: "0 \<le> m + r * r"
        using "1.prems"(2) by simp
      have "m + r * r = 0 \<longleftrightarrow> m = 0 \<and> r = 0"
        using "1.prems"(2) by (smt (verit) mult_eq_0_iff zero_le_square)
      moreover have "vecA ! i = Fin r"
        using e True by (simp add: elem_def)
      ultimately show ?thesis
        using "1.IH" [OF True new nonneg] unfold split by simp
    next
      assume "jsmul (elem vecA i) (elem vecA i) = NaN"
      then have "fst (snd ?acc) = NaN \<or> fst (snd ?acc) = PInf" and "elem vecA i \<noteq> Fin 0"
        using magA by auto
      then have "jssqrt (fst (snd (cosineLoop vecA vecB (i + 1) ?acc))) \<noteq> Fin 0" and "vecA ! i \<noteq> Fin 0"
        using magA_not_finite [of ?acc vecA vecB "i + 1"] True by (auto simp: elem_def)
      then show ?thesis
        using unfold True by auto
    next
      assume "jsmul (elem vecA i) (elem vecA i) = PInf"
      then have "fst (snd ?acc) = NaN \<or> fst (snd ?acc) = PInf" and "elem vecA i \<noteq> Fin 0"
        using magA by auto
      then have "jssqrt (fst (snd (cosineLoop vecA vecB (i + 1) ?acc))) \<noteq> Fin 0" and "vecA ! i \<noteq> Fin 0"
        using magA_not_finite [of ?acc vecA vecB "i + 1"] True by (auto simp: elem_def)
      then show ?thesis
        using unfold True by auto
    qed
  next
    case False
    then have "\<forall>j. i \<le> j \<and> j < length vecA \<longrightarrow> vecA ! j = Fin 0"
      by auto
    then show ?thesis
      using "1.prems" False by (simp add: cosineLoop.simps [of vecA vecB i])
  qed
qed

lemma magnitude_zero_iff: "magnitude v = Fin 0 \<longleftrightarrow> (\<forall>x\<in>set v. x = Fin 0)"
  using magA_zero_iff [of "(Fin 0, Fin 0, Fin 0)" 0 v v 0]
  by (auto simp: magnitude_def all_set_conv_all_nth)

lemma cosineSimilarity_one: "cosineSimilarity [Fin 1] [Fin 1] = Fin 1"
  by (simp add: cosineSimilarity_def cosineLoop.simps elem_def)

lemma cosineSimilarity_silent: "cosineSimilarity [Fin 1] [Fin 0] = NaN"
  by (simp add: cosineSimilarity_def cosineLoop.simps elem_def)

lemma cosineSimilarity_tie: "cosineSimilarity [Fin 1] [Fin 2] = Fin 1"
  by (simp add: cosineSimilarity_def cosineLoop.simps elem_def)

lemma cosineSimilarity_opposite: "cosineSimilarity [Fin 1] [Fin (- 1)] = Fin (- 1)"
  by (simp add: cosineSimilarity_def cosineLoop.simps elem_def)

lemma peak_one: "peak [Fin 1] = Fin 1"
  by (simp add: peak_def jsmax_def)



section \<open>Facts about the match engine\<close>

text \<open>
  A run of \<^verbatim>\<open>analyzeAndCompare\<close> in which every reference yields its features ends
  with the decision on the best match of the scores, in the state \<open>passed\<close>
  (\<open>settle_scan\<close>, \<open>analyzeAndCompare_run\<close>); \<open>bestOf_search\<close> tells which match
  that is.
\<close>

lemma cache_cached: "features ref = Some f \<Longrightarrow> cache env ref = ref"
  by (simp add: cache_def referenceFeatures_def)

lemma bestOf_compare:
  "bestOf (cosineSimilarity popFeatures f # rest) i best =
   bestOf rest (i + 1) (compare popFeatures f i best)"
  by (simp add: compare_def Let_def)

lemma passed_end: "length (refSamples s) \<le> i \<Longrightarrow> passed env i s = s"
  by (simp add: passed_def)

lemma passed_cached:
  assumes "i < length (refSamples s)" and "features (refSamples s ! i) = Some f"
  shows "passed env i s = passed env (Suc i) s"
proof -
  have "drop i (refSamples s) = refSamples s ! i # drop (Suc i) (refSamples s)"
    using assms(1) by (simp add: Cons_nth_drop_Suc)
  moreover have "take (Suc i) (refSamples s) = take i (refSamples s) @ [refSamples s ! i]"
    using assms(1) by (simp add: take_Suc_conv_app_nth)
  moreover have "[i..<length (refSamples s)] = i # [Suc i..<length (refSamples s)]"
    using assms(1) by (simp add: upt_conv_Cons)
  ultimately show ?thesis
    using assms(2) by (simp add: passed_def cache_cached)
qed

lemma passed_stored:
  assumes i: "i < length (refSamples s)" and none: "features (refSamples s ! i) = None"
    and f: "computeFeatures env (refSamples s ! i) = Some f"
  shows "passed env (Suc i)
           (s\<lparr>refSamples := (refSamples s)[i := (refSamples s ! i)\<lparr>features := Some f\<rparr>],
              extractions := extractions s @ [i]\<rparr>) = passed env i s"
proof -
  let ?refs = "refSamples s"
  let ?r = "(?refs ! i)\<lparr>features := Some f\<rparr>"
  have c: "cache env (?refs ! i) = ?r"
    using none f by (simp add: cache_def referenceFeatures_def)
  have d: "drop i ?refs = ?refs ! i # drop (Suc i) ?refs"
    using i by (simp add: Cons_nth_drop_Suc)
  have t: "take (Suc i) (?refs[i := ?r]) = take i ?refs @ [?r]"
    using i by (simp add: take_Suc_conv_app_nth)
  have u: "[i..<length ?refs] = i # [Suc i..<length ?refs]"
    using i by (simp add: upt_conv_Cons)
  have fl: "filter (\<lambda>j. features (?refs[i := ?r] ! j) = None) [Suc i..<length ?refs] =
      filter (\<lambda>j. features (?refs ! j) = None) [Suc i..<length ?refs]"
    by (rule filter_cong) auto
  show ?thesis
    using none by (simp add: passed_def t d c u fl)
qed

lemma settle_scan:
  assumes "length fs = length (refSamples s)"
    and "\<forall>j. i \<le> j \<and> j < length (refSamples s) \<longrightarrow> referenceFeatures env (refSamples s ! j) = Some (fs ! j)"
  shows "settle env (scan popFeatures i best s) =
    (decide (bestOf (drop i (map (cosineSimilarity popFeatures) fs)) i best) (passed env i s), Finished)"
  using assms
proof (induction "length (refSamples s) - i" arbitrary: i best s)
  case 0
  then have "length (refSamples s) \<le> i" by simp
  then show ?case
    using "0.prems"(1) by (simp add: scan.simps [of popFeatures i best s] passed_end)
next
  case (Suc k)
  then have i: "i < length (refSamples s)" by simp
  have k: "k = length (refSamples s) - (i + 1)"
    using Suc.hyps(2) by simp
  have "drop i (map (cosineSimilarity popFeatures) fs) =
      cosineSimilarity popFeatures (fs ! i) # drop (i + 1) (map (cosineSimilarity popFeatures) fs)"
    using i Suc.prems(1) by (simp add: Cons_nth_drop_Suc [symmetric])
  then have sc: "bestOf (drop i (map (cosineSimilarity popFeatures) fs)) i best =
      bestOf (drop (i + 1) (map (cosineSimilarity popFeatures) fs)) (i + 1)
        (compare popFeatures (fs ! i) i best)"
    by (simp only: bestOf_compare)
  have fsi: "referenceFeatures env (refSamples s ! i) = Some (fs ! i)"
    using i Suc.prems(2) by simp
  show ?case
  proof (cases "features (refSamples s ! i)")
    case (Some f)
    with fsi have f: "fs ! i = f"
      by (simp add: referenceFeatures_def)
    have "\<forall>j. i + 1 \<le> j \<and> j < length (refSamples s) \<longrightarrow>
        referenceFeatures env (refSamples s ! j) = Some (fs ! j)"
      using Suc.prems(2) by simp
    from Suc.hyps(1) [OF k Suc.prems(1) this, of "compare popFeatures f i best"]
    show ?thesis
      using i Some f
      by (simp add: scan.simps [of popFeatures i best s] sc passed_cached [OF i Some])
  next
    case None
    with fsi have f: "computeFeatures env (refSamples s ! i) = Some (fs ! i)"
      by (simp add: referenceFeatures_def)
    let ?s1 = "s\<lparr>refSamples := (refSamples s)[i := (refSamples s ! i)\<lparr>features := Some (fs ! i)\<rparr>],
              extractions := extractions s @ [i]\<rparr>"
    have k1: "k = length (refSamples ?s1) - (i + 1)"
      using k by simp
    have len1: "length fs = length (refSamples ?s1)"
      using Suc.prems(1) by simp
    have dec1: "\<forall>j. i + 1 \<le> j \<and> j < length (refSamples ?s1) \<longrightarrow>
        referenceFeatures env (refSamples ?s1 ! j) = Some (fs ! j)"
      using Suc.prems(2) by simp
    have "settle env (scan popFeatures i best s) =
        settle env (scan popFeatures (i + 1) (compare popFeatures (fs ! i) i best) ?s1)"
      using i None f by (simp add: scan.simps [of popFeatures i best s] resume_def)
    also have "\<dots> = (decide (bestOf (drop (i + 1) (map (cosineSimilarity popFeatures) fs)) (i + 1)
        (compare popFeatures (fs ! i) i best)) (passed env (i + 1) ?s1), Finished)"
      by (rule Suc.hyps(1) [OF k1 len1 dec1])
    finally show ?thesis
      by (simp add: sc passed_stored [OF i None f])
  qed
qed

lemma gt_irrefl: "\<not> gt x x"
  by (cases x) simp_all

lemma gt_trans: "gt a b \<Longrightarrow> gt b c \<Longrightarrow> gt a c"
  by (cases a; cases b; cases c) simp_all

lemma gt_not_gt: "gt y c \<Longrightarrow> \<not> gt x c \<Longrightarrow> \<not> gt x y"
  by (cases x; cases y; cases c) simp_all

lemma bestOf_spec:
  assumes "length pre = i" and "\<forall>x\<in>set pre. \<not> gt x (score best)"
  shows "(\<forall>x\<in>set (pre @ xs). \<not> gt x (score (bestOf xs i best))) \<and>
    (bestOf xs i best = best \<or>
     (\<exists>k. i \<le> k \<and> k < i + length xs \<and>
        bestOf xs i best = \<lparr>score = (pre @ xs) ! k, index = int k\<rparr> \<and>
        gt ((pre @ xs) ! k) (score best) \<and>
        (\<forall>j<k. (pre @ xs) ! j \<noteq> (pre @ xs) ! k)))"
  using assms
proof (induction xs arbitrary: pre i best)
  case Nil
  then show ?case by simp
next
  case (Cons x xs)
  let ?b = "if gt x (score best) then \<lparr>score = x, index = int i\<rparr> else best"
  have len: "length (pre @ [x]) = i + 1"
    using Cons.prems(1) by simp
  have inv: "\<forall>y\<in>set (pre @ [x]). \<not> gt y (score ?b)"
    using Cons.prems(2) by (auto simp: gt_irrefl dest: gt_not_gt)
  note IH = Cons.IH [OF len inv]
  have app: "(pre @ [x]) @ xs = pre @ x # xs"
    by simp
  have unfold: "bestOf (x # xs) i best = bestOf xs (i + 1) ?b"
    by simp
  from IH have max: "\<forall>y\<in>set (pre @ x # xs). \<not> gt y (score (bestOf (x # xs) i best))"
    unfolding unfold app by blast
  from IH have "bestOf xs (i + 1) ?b = ?b \<or>
     (\<exists>k. i + 1 \<le> k \<and> k < i + 1 + length xs \<and>
        bestOf xs (i + 1) ?b = \<lparr>score = (pre @ x # xs) ! k, index = int k\<rparr> \<and>
        gt ((pre @ x # xs) ! k) (score ?b) \<and>
        (\<forall>j<k. (pre @ x # xs) ! j \<noteq> (pre @ x # xs) ! k))"
    unfolding app by blast
  then have sel: "bestOf (x # xs) i best = best \<or>
     (\<exists>k. i \<le> k \<and> k < i + length (x # xs) \<and>
        bestOf (x # xs) i best = \<lparr>score = (pre @ x # xs) ! k, index = int k\<rparr> \<and>
        gt ((pre @ x # xs) ! k) (score best) \<and>
        (\<forall>j<k. (pre @ x # xs) ! j \<noteq> (pre @ x # xs) ! k))"
  proof
    assume same: "bestOf xs (i + 1) ?b = ?b"
    show ?thesis
    proof (cases "gt x (score best)")
      case True
      have at: "(pre @ x # xs) ! i = x"
        using Cons.prems(1) by (simp add: nth_append)
      have "\<forall>j<i. (pre @ x # xs) ! j \<noteq> x"
      proof (intro allI impI)
        fix j assume "j < i"
        then have "(pre @ x # xs) ! j \<in> set pre"
          using Cons.prems(1) by (simp add: nth_append)
        with Cons.prems(2) have "\<not> gt ((pre @ x # xs) ! j) (score best)"
          by blast
        with True show "(pre @ x # xs) ! j \<noteq> x"
          by auto
      qed
      with True same at have "i \<le> i \<and> i < i + length (x # xs) \<and>
        bestOf (x # xs) i best = \<lparr>score = (pre @ x # xs) ! i, index = int i\<rparr> \<and>
        gt ((pre @ x # xs) ! i) (score best) \<and>
        (\<forall>j<i. (pre @ x # xs) ! j \<noteq> (pre @ x # xs) ! i)"
        by simp
      then show ?thesis by blast
    next
      case False
      with same show ?thesis by simp
    qed
  next
    assume "\<exists>k. i + 1 \<le> k \<and> k < i + 1 + length xs \<and>
        bestOf xs (i + 1) ?b = \<lparr>score = (pre @ x # xs) ! k, index = int k\<rparr> \<and>
        gt ((pre @ x # xs) ! k) (score ?b) \<and>
        (\<forall>j<k. (pre @ x # xs) ! j \<noteq> (pre @ x # xs) ! k)"
    then obtain k where k: "i + 1 \<le> k" "k < i + 1 + length xs"
        "bestOf xs (i + 1) ?b = \<lparr>score = (pre @ x # xs) ! k, index = int k\<rparr>"
        "gt ((pre @ x # xs) ! k) (score ?b)"
        "\<forall>j<k. (pre @ x # xs) ! j \<noteq> (pre @ x # xs) ! k"
      by blast
    have "gt ((pre @ x # xs) ! k) (score best)"
      using k(4) by (auto split: if_splits dest: gt_trans)
    with k have "i \<le> k \<and> k < i + length (x # xs) \<and>
        bestOf (x # xs) i best = \<lparr>score = (pre @ x # xs) ! k, index = int k\<rparr> \<and>
        gt ((pre @ x # xs) ! k) (score best) \<and>
        (\<forall>j<k. (pre @ x # xs) ! j \<noteq> (pre @ x # xs) ! k)"
      by simp
    then show ?thesis by blast
  qed
  from max sel show ?case by blast
qed

lemma bestOf_search:
  fixes scores :: "jsnum list"
  defines "b \<equiv> bestOf scores 0 \<lparr>score = Fin (- 1), index = - 1\<rparr>"
  shows "(\<forall>j<length scores. \<not> gt (scores ! j) (score b)) \<and>
    ((\<forall>j<length scores. \<not> gt (scores ! j) (Fin (- 1))) \<and> b = \<lparr>score = Fin (- 1), index = - 1\<rparr> \<or>
     (\<exists>k<length scores. b = \<lparr>score = scores ! k, index = int k\<rparr> \<and>
        gt (scores ! k) (Fin (- 1)) \<and> (\<forall>j<k. scores ! j \<noteq> scores ! k)))"
proof -
  let ?init = "\<lparr>score = Fin (- 1), index = - 1\<rparr>"
  from bestOf_spec [of "[]" 0 ?init scores]
  have max: "\<forall>x\<in>set scores. \<not> gt x (score b)"
    and sel: "b = ?init \<or> (\<exists>k. k < length scores \<and> b = \<lparr>score = scores ! k, index = int k\<rparr> \<and>
        gt (scores ! k) (Fin (- 1)) \<and> (\<forall>j<k. scores ! j \<noteq> scores ! k))"
    unfolding b_def by simp_all
  from max have m: "\<forall>j<length scores. \<not> gt (scores ! j) (score b)"
    by simp
  from sel show ?thesis
  proof
    assume "b = ?init"
    with m show ?thesis by simp
  next
    assume "\<exists>k. k < length scores \<and> b = \<lparr>score = scores ! k, index = int k\<rparr> \<and>
        gt (scores ! k) (Fin (- 1)) \<and> (\<forall>j<k. scores ! j \<noteq> scores ! k)"
    with m show ?thesis by blast
  qed
qed

lemma analyzeAndCompare_run:
  assumes refs: "refSamples s \<noteq> []"
    and pop: "getFeatures env popBuffer = Some popFeatures"
    and feats: "map (referenceFeatures env) (refSamples s) = map Some fs"
  shows "analyzeAndCompare env popBuffer s =
    (decide (bestOf (map (cosineSimilarity popFeatures) fs) 0 \<lparr>score = Fin (- 1), index = - 1\<rparr>)
       (passed env 0 s), Finished)"
proof -
  from feats have len: "length fs = length (refSamples s)"
    by (metis length_map)
  have "\<forall>j. 0 \<le> j \<and> j < length (refSamples s) \<longrightarrow>
      referenceFeatures env (refSamples s ! j) = Some (fs ! j)"
  proof (intro allI impI)
    fix j assume j: "0 \<le> j \<and> j < length (refSamples s)"
    then have "map (referenceFeatures env) (refSamples s) ! j = map Some fs ! j"
      using feats by simp
    with j len show "referenceFeatures env (refSamples s ! j) = Some (fs ! j)"
      by simp
  qed
  from settle_scan [OF len this] refs pop show ?thesis
    by (simp add: analyzeAndCompare_def analyzeAndCompare_call_def)
qed

lemma passed_fields [simp]:
  "counter (passed env i s) = counter s"
  "cooldown (passed env i s) = cooldown s"
  "running (passed env i s) = running s"
  "status (passed env i s) = status s"
  by (simp_all add: passed_def)


section \<open>Facts about the detector and the cache\<close>

text \<open>
  Only the decision writes the counter and the cooldown (\<open>settle_scan_fields\<close>); the
  three cases of the handler; and the relation \<open>advanced\<close>, which every run of a match
  and every sequence of frames keeps (\<open>frames_advanced\<close>).
\<close>

lemma decide_fields [simp]:
  "running (decide best s) = running s"
  "refSamples (decide best s) = refSamples s"
  "extractions (decide best s) = extractions s"
  by (simp_all add: decide_def)






























text \<open>The definitions that the examples unfold.\<close>

lemmas engine_simps =
  analyzeAndCompare_def analyzeAndCompare_call_def initial_def loadReferences_def
  identityEnv_def scan.simps resume_def computeFeatures_def compare_def decide_def
  SIMILARITY_THRESHOLD_def COOLDOWN_FRAMES_def referenceFeatures_def
  cosineSimilarity_one cosineSimilarity_silent

lemmas detector_simps =
  frames_def frame_def onaudioprocess_def THRESHOLD_def peak_one
  startCounter_def stopCounter_def detector_def

section \<open>C1: the decision of the match engine\<close>

text \<open>
  C1: for a frame handed to the match engine while the reference set is not empty, the
  engine reports ACCEPT if and only if the best score is strictly greater than 0.95, and
  on ACCEPT it adds exactly one to the counter and sets the cooldown to 10; otherwise it
  reports REJECT with the same best match and leaves both as they were. The run is the
  one in which the frame and every reference yield their features, \<open>best\<close> being the
  best match of the scores of the references in their order.
\<close>

theorem analyzeAndCompare_accept:
  assumes refs: "refSamples s \<noteq> []"
    and pop: "getFeatures env popBuffer = Some popFeatures"
    and feats: "map (referenceFeatures env) (refSamples s) = map Some fs"
    and best: "best = bestOf (map (cosineSimilarity popFeatures) fs) 0 \<lparr>score = Fin (- 1), index = - 1\<rparr>"
    and run: "analyzeAndCompare env popBuffer s = (s', p)"
  shows "p = Finished \<and>
    (reported (status s') = Some ACCEPT \<longleftrightarrow> gt (score best) (Fin (95 / 100))) \<and>
    (reported (status s') = Some ACCEPT \<longrightarrow>
       status s' = Matched (index best + 1) (score best) \<and>
       counter s' = counter s + 1 \<and> cooldown s' = 10) \<and>
    (reported (status s') \<noteq> Some ACCEPT \<longrightarrow>
       status s' = NoMatch (index best + 1) (score best) \<and>
       counter s' = counter s \<and> cooldown s' = cooldown s)"
proof -
  from analyzeAndCompare_run [OF refs pop feats] run best
  have p: "p = Finished" and s': "s' = decide best (passed env 0 s)"
    by simp_all
  show ?thesis
  proof (cases "gt (score best) (Fin (95 / 100))")
    case True
    then show ?thesis
      using p s' by (simp add: decide_def SIMILARITY_THRESHOLD_def COOLDOWN_FRAMES_def)
  next
    case False
    then show ?thesis
      using p s' by (simp add: decide_def SIMILARITY_THRESHOLD_def)
  qed
qed

theorem analyzeAndCompare_accept_witness:
  "refSamples (initial [[Fin 1]]) \<noteq> [] \<and>
   getFeatures identityEnv [Fin 1] = Some [Fin 1] \<and>
   map (referenceFeatures identityEnv) (refSamples (initial [[Fin 1]])) = map Some [[Fin 1]] \<and>
   bestOf (map (cosineSimilarity [Fin 1]) [[Fin 1]]) 0 \<lparr>score = Fin (- 1), index = - 1\<rparr> =
     \<lparr>score = Fin 1, index = 0\<rparr> \<and>
   analyzeAndCompare identityEnv [Fin 1] (initial [[Fin 1]]) =
     (\<lparr>counter = 1, running = False, cooldown = 10,
        refSamples = [\<lparr>blob = [Fin 1], features = Some [Fin 1]\<rparr>],
        status = Matched 1 (Fin 1), extractions = [0]\<rparr>, Finished) \<and>
   gt (Fin 1) (Fin (95 / 100)) \<and> counter (initial [[Fin 1 :: jsnum]]) = 0"
  using analyzeAndCompare_accept [of "initial [[Fin 1]]" identityEnv "[Fin 1]" "[Fin 1]" "[[Fin 1]]"
      "\<lparr>score = Fin 1, index = 0\<rparr>"
      "fst (analyzeAndCompare identityEnv [Fin 1] (initial [[Fin 1]]))"
      "snd (analyzeAndCompare identityEnv [Fin 1] (initial [[Fin 1]]))"]
  by (simp add: engine_simps)

section \<open>C2: a vector of zero magnitude\<close>

text \<open>
  C2 says that the scorer returns a defined sentinel such as 0, and divides by nothing
  that is zero, when one of two vectors of equal length has zero magnitude. The code has
  no guard. For the silent vector \<open>[0]\<close> against \<open>[1]\<close> the loop leaves the dot
  product 0 and the magnitudes 0 and 1, the divisor of line 69 is 0, and the result is
  \<open>NaN\<close>, not 0.
\<close>

theorem cosineSimilarity_zero_counterexample:
  "magnitude [Fin 0] = Fin 0 \<and> length [Fin 0] = length [Fin 1] \<and>
   cosineLoop [Fin 0] [Fin 1] 0 (Fin 0, Fin 0, Fin 0) = (Fin 0, Fin 0, Fin 1) \<and>
   jsmul (jssqrt (Fin 0)) (jssqrt (Fin 1)) = Fin 0 \<and>
   cosineSimilarity [Fin 0] [Fin 1] = NaN \<and>
   cosineSimilarity [Fin 0] [Fin 1] \<noteq> Fin 0"
  by (simp add: magnitude_def cosineSimilarity_def cosineLoop.simps elem_def)

text \<open>
  C2 as amended: when every element of one of two vectors of equal length is zero, which
  by \<open>magnitude_zero_iff\<close> is when its magnitude is zero, the scorer raises nothing and
  returns \<open>NaN\<close>, the quotient of the unguarded division; no comparison finds \<open>NaN\<close>
  greater than a number, so such a score never becomes the best match and is never
  accepted.
\<close>

theorem cosineSimilarity_zero_magnitude:
  assumes len: "length vecA = length vecB"
    and zero: "(\<forall>x\<in>set vecA. x = Fin 0) \<or> (\<forall>x\<in>set vecB. x = Fin 0)"
  shows "cosineSimilarity vecA vecB = NaN \<and> \<not> gt (cosineSimilarity vecA vecB) y"
proof -
  obtain d a b where r: "cosineLoop vecA vecB 0 (Fin 0, Fin 0, Fin 0) = (d, a, b)"
    by (cases "cosineLoop vecA vecB 0 (Fin 0, Fin 0, Fin 0)") auto
  from zero have "(d = Fin 0 \<or> d = NaN) \<and> (a = Fin 0 \<or> b = Fin 0)"
  proof
    assume "\<forall>x\<in>set vecA. x = Fin 0"
    from cosineLoop_zero_left [OF this, of "(Fin 0, Fin 0, Fin 0)" vecB 0] r
    show ?thesis by simp
  next
    assume "\<forall>x\<in>set vecB. x = Fin 0"
    from cosineLoop_zero_right [OF _ this, of vecA "(Fin 0, Fin 0, Fin 0)" 0] r len
    show ?thesis by simp
  qed
  then have d: "d = Fin 0 \<or> d = NaN" and ab: "a = Fin 0 \<or> b = Fin 0"
    by simp_all
  from ab have "jsmul (jssqrt a) (jssqrt b) = Fin 0 \<or> jsmul (jssqrt a) (jssqrt b) = NaN"
    using jsmul_zero_left [of "jssqrt b"] jsmul_zero_right [of "jssqrt a"] by auto
  with d have "jsdiv d (jsmul (jssqrt a) (jssqrt b)) = NaN"
    by (rule jsdiv_zero_or_NaN)
  then show ?thesis
    by (simp add: cosineSimilarity_def r)
qed

theorem cosineSimilarity_zero_magnitude_witness:
  "length [Fin 0, Fin 0] = length [Fin 3, Fin 4] \<and>
   cosineSimilarity [Fin 0, Fin 0] [Fin 3, Fin 4] = NaN \<and>
   \<not> gt (cosineSimilarity [Fin 0, Fin 0] [Fin 3, Fin 4]) (Fin (- 1))"
  using cosineSimilarity_zero_magnitude [of "[Fin 0, Fin 0]" "[Fin 3, Fin 4]" "Fin (- 1)"]
  by simp

section \<open>C3: the start command\<close>

text \<open>
  C3 says that the start command leaves the detector ARMED with a cooldown of 0 whatever
  cooldown a previous session left. Neither \<^verbatim>\<open>startCounter\<close> nor \<^verbatim>\<open>stopCounter\<close>
  assigns \<^verbatim>\<open>cooldown\<close>: a session stopped right after an accepted pop and started
  again begins with the cooldown 10, in the state COOLING.
\<close>

theorem startCounter_cooling_counterexample:
  "cooldown (startCounter True (stopCounter
      (frame identityEnv (startCounter True (initial [[Fin 1]])) [Fin 1]))) = 10 \<and>
   detector (startCounter True (stopCounter
      (frame identityEnv (startCounter True (initial [[Fin 1]])) [Fin 1]))) = COOLING \<and>
   detector (stopCounter
      (frame identityEnv (startCounter True (initial [[Fin 1]])) [Fin 1])) = IDLE"
  by (simp add: engine_simps detector_simps)

text \<open>
  C3 as amended: the start command keeps the cooldown and the counter as they are. When
  the microphone is granted it sets \<^verbatim>\<open>running\<close>, and the detector is ARMED when the
  cooldown left is 0, as it is at the first start of the program, and COOLING when a
  previous session left it positive; when the microphone is refused the detector stays
  as it was. The stop command leaves the detector IDLE and keeps the cooldown.
\<close>

theorem startCounter_keeps_cooldown:
  "cooldown (startCounter granted s) = cooldown s \<and>
   counter (startCounter granted s) = counter s \<and>
   running (startCounter True s) \<and>
   running (startCounter False s) = running s \<and>
   detector (startCounter True s) = (if 0 < cooldown s then COOLING else ARMED) \<and>
   cooldown (stopCounter s) = cooldown s \<and>
   detector (stopCounter s) = IDLE \<and>
   detector (startCounter True (initial refsFromDB)) = ARMED"
  by (simp add: startCounter_def stopCounter_def detector_def initial_def loadReferences_def)

section \<open>C4: the suppression window\<close>




section \<open>C5: no references\<close>

text \<open>
  C5: when the reference set is empty the match engine reports that there are no
  references and does nothing else: the call ends at once, and the counter, the
  cooldown, the reference set and the trace of the extractions are as before.
\<close>

theorem analyzeAndCompare_no_references:
  assumes "refSamples s = []"
  shows "analyzeAndCompare_call env popBuffer s = (s\<lparr>status := NoReferences\<rparr>, Finished) \<and>
    analyzeAndCompare env popBuffer s = (s\<lparr>status := NoReferences\<rparr>, Finished) \<and>
    reported (status (fst (analyzeAndCompare env popBuffer s))) = Some NO_REFERENCES \<and>
    counter (fst (analyzeAndCompare env popBuffer s)) = counter s \<and>
    cooldown (fst (analyzeAndCompare env popBuffer s)) = cooldown s \<and>
    refSamples (fst (analyzeAndCompare env popBuffer s)) = [] \<and>
    extractions (fst (analyzeAndCompare env popBuffer s)) = extractions s"
  using assms by (simp add: analyzeAndCompare_def analyzeAndCompare_call_def)

theorem analyzeAndCompare_no_references_witness:
  "refSamples (initial ([] :: vec list)) = [] \<and>
   analyzeAndCompare identityEnv [Fin 1] (initial []) = ((initial [])\<lparr>status := NoReferences\<rparr>, Finished) \<and>
   counter (fst (analyzeAndCompare identityEnv [Fin 1] (initial []))) = 0"
  using analyzeAndCompare_no_references [of "initial []" identityEnv "[Fin 1]"]
  by (simp add: initial_def loadReferences_def)

section \<open>C6: vectors of different lengths\<close>

text \<open>
  C6 says that the scorer fails loudly on two vectors of different lengths and never
  truncates. The code checks no length and \<^verbatim>\<open>cosineSimilarity\<close> raises nothing: for
  \<open>[1]\<close> against \<open>[1, 5]\<close> it returns 1, the score of \<open>[1]\<close> against \<open>[1]\<close>, the
  second element of the longer vector being ignored.
\<close>

theorem cosineSimilarity_mismatch_counterexample:
  "length [Fin 1] \<noteq> length [Fin 1, Fin 5] \<and>
   cosineSimilarity [Fin 1] [Fin 1, Fin 5] = Fin 1 \<and>
   cosineSimilarity [Fin 1] [Fin 1, Fin 5] = cosineSimilarity [Fin 1] [Fin 1]"
  by (simp add: cosineSimilarity_def cosineLoop.simps elem_def)

text \<open>
  C6 as amended: the scorer raises nothing on vectors of different lengths. The loop runs
  over the indices of \<^verbatim>\<open>vecA\<close>: when \<^verbatim>\<open>vecB\<close> is the longer one its elements past
  the length of \<^verbatim>\<open>vecA\<close> are ignored, and the result is the score against the truncated
  vector; when \<^verbatim>\<open>vecB\<close> is the shorter one the elements read past its end make the
  result \<open>NaN\<close>.
\<close>

theorem cosineSimilarity_length_mismatch:
  "(length vecA < length vecB \<longrightarrow>
      cosineSimilarity vecA vecB = cosineSimilarity vecA (take (length vecA) vecB)) \<and>
   (length vecB < length vecA \<longrightarrow> cosineSimilarity vecA vecB = NaN)"
proof (intro conjI impI)
  show "cosineSimilarity vecA vecB = cosineSimilarity vecA (take (length vecA) vecB)"
    by (simp add: cosineSimilarity_def cosineLoop_take)
next
  assume short: "length vecB < length vecA"
  obtain d a b where r: "cosineLoop vecA vecB 0 (Fin 0, Fin 0, Fin 0) = (d, a, b)"
    by (cases "cosineLoop vecA vecB 0 (Fin 0, Fin 0, Fin 0)") auto
  have "d = NaN"
    using cosineLoop_short [of 0 vecB vecA "(Fin 0, Fin 0, Fin 0)"] short r by simp
  then show "cosineSimilarity vecA vecB = NaN"
    by (simp add: cosineSimilarity_def r)
qed

theorem cosineSimilarity_length_mismatch_witness:
  "length [Fin 1] < length [Fin 1, Fin 5] \<and>
   cosineSimilarity [Fin 1] [Fin 1, Fin 5] = cosineSimilarity [Fin 1] (take (length [Fin 1]) [Fin 1, Fin 5]) \<and>
   length [Fin 1] < length [Fin 1, Fin 3] \<and>
   cosineSimilarity [Fin 1, Fin 3] [Fin 1] = NaN"
  using cosineSimilarity_length_mismatch [of "[Fin 1]" "[Fin 1, Fin 5]"]
    cosineSimilarity_length_mismatch [of "[Fin 1, Fin 3]" "[Fin 1]"]
  by simp

section \<open>C7: the best match\<close>

text \<open>
  C7 says that for every non-empty reference set the search returns the greatest score
  and the index of the first reference that attains it. The search starts from the
  score \<open>-1\<close> and the index \<open>-1\<close> and only a score strictly greater replaces them:
  for one reference whose features are all zero the only score is \<open>NaN\<close>, and the
  search returns the score \<open>-1\<close>, which is the score of no reference, with the index
  \<open>-1\<close>, shown as reference number 0.
\<close>

theorem bestMatch_first_maximum_counterexample:
  "refSamples (initial [[Fin 0]]) \<noteq> [] \<and>
   cosineSimilarity [Fin 1] [Fin 0] = NaN \<and>
   analyzeAndCompare identityEnv [Fin 1] (initial [[Fin 0]]) =
     (\<lparr>counter = 0, running = False, cooldown = 0,
        refSamples = [\<lparr>blob = [Fin 0], features = Some [Fin 0]\<rparr>],
        status = NoMatch 0 (Fin (- 1)), extractions = [0]\<rparr>, Finished) \<and>
   bestOf [cosineSimilarity [Fin 1] [Fin 0]] 0 \<lparr>score = Fin (- 1), index = - 1\<rparr> =
     \<lparr>score = Fin (- 1), index = - 1\<rparr> \<and>
   score (bestOf [cosineSimilarity [Fin 1] [Fin 0]] 0 \<lparr>score = Fin (- 1), index = - 1\<rparr>) \<noteq>
     cosineSimilarity [Fin 1] [Fin 0] \<and>
   index (bestOf [cosineSimilarity [Fin 1] [Fin 0]] 0 \<lparr>score = Fin (- 1), index = - 1\<rparr>) < 0"
  by (simp add: engine_simps)

text \<open>
  C7 as amended: for every non-empty reference set of which at least one score is
  strictly greater than \<open>-1\<close>, the search returns a score that no score of a reference
  exceeds, with the index of the first reference that has this score: no earlier
  reference has it. The index \<open>k\<close> is reported as the reference number \<open>k + 1\<close>.
\<close>

theorem bestMatch_first_maximum:
  assumes refs: "refSamples s \<noteq> []"
    and pop: "getFeatures env popBuffer = Some popFeatures"
    and feats: "map (referenceFeatures env) (refSamples s) = map Some fs"
    and scores: "scores = map (cosineSimilarity popFeatures) fs"
    and some: "\<exists>j<length scores. gt (scores ! j) (Fin (- 1))"
    and run: "analyzeAndCompare env popBuffer s = (s', p)"
  shows "\<exists>k<length (refSamples s).
    (status s' = Matched (int k + 1) (scores ! k) \<or> status s' = NoMatch (int k + 1) (scores ! k)) \<and>
    (\<forall>j<length (refSamples s). \<not> gt (scores ! j) (scores ! k)) \<and>
    (\<forall>j<k. scores ! j \<noteq> scores ! k)"
proof -
  let ?b = "bestOf scores 0 \<lparr>score = Fin (- 1), index = - 1\<rparr>"
  from feats scores have len: "length scores = length (refSamples s)"
    by (metis length_map)
  from analyzeAndCompare_run [OF refs pop feats] run scores
  have s': "s' = decide ?b (passed env 0 s)"
    by simp
  from bestOf_search [of scores] some
  obtain k where k: "k < length scores" "?b = \<lparr>score = scores ! k, index = int k\<rparr>"
      "\<forall>j<k. scores ! j \<noteq> scores ! k" "\<forall>j<length scores. \<not> gt (scores ! j) (score ?b)"
    by auto
  have "status s' = Matched (int k + 1) (scores ! k) \<or> status s' = NoMatch (int k + 1) (scores ! k)"
    using s' k(2) by (simp add: decide_def)
  moreover have "\<forall>j<length (refSamples s). \<not> gt (scores ! j) (scores ! k)"
    using k(2,4) len by simp
  ultimately show ?thesis
    using k(1,3) len by auto
qed

theorem bestMatch_first_maximum_witness:
  "refSamples (initial [[Fin 1], [Fin 2]]) \<noteq> [] \<and>
   getFeatures identityEnv [Fin 1] = Some [Fin 1] \<and>
   map (referenceFeatures identityEnv) (refSamples (initial [[Fin 1], [Fin 2]])) =
     map Some [[Fin 1], [Fin 2]] \<and>
   map (cosineSimilarity [Fin 1]) [[Fin 1], [Fin 2]] = [Fin 1, Fin 1] \<and>
   gt ([Fin 1, Fin 1] ! 0) (Fin (- 1)) \<and>
   status (fst (analyzeAndCompare identityEnv [Fin 1] (initial [[Fin 1], [Fin 2]]))) = Matched 1 (Fin 1)"
  using bestMatch_first_maximum [of "initial [[Fin 1], [Fin 2]]" identityEnv "[Fin 1]" "[Fin 1]"
      "[[Fin 1], [Fin 2]]" "[Fin 1, Fin 1]"
      "fst (analyzeAndCompare identityEnv [Fin 1] (initial [[Fin 1], [Fin 2]]))"
      "snd (analyzeAndCompare identityEnv [Fin 1] (initial [[Fin 1], [Fin 2]]))"]
  by (simp add: engine_simps cosineSimilarity_tie)

section \<open>C8: a rejected match\<close>




section \<open>C9: the cache of the reference features\<close>




section \<open>C10: the sentinel index\<close>

text \<open>
  C10: for a non-empty reference set the index of the best match is an index of the set
  only when the score of some reference is strictly greater than \<open>-1\<close>; when no score
  is, because every score is \<open>-1\<close> or \<open>NaN\<close>, the index stays \<open>-1\<close> and the score
  \<open>-1\<close>, and the report is REJECT for the reference number 0.
\<close>

theorem bestMatch_sentinel_index:
  assumes refs: "refSamples s \<noteq> []"
    and pop: "getFeatures env popBuffer = Some popFeatures"
    and feats: "map (referenceFeatures env) (refSamples s) = map Some fs"
    and scores: "scores = map (cosineSimilarity popFeatures) fs"
    and best: "best = bestOf scores 0 \<lparr>score = Fin (- 1), index = - 1\<rparr>"
    and run: "analyzeAndCompare env popBuffer s = (s', p)"
  shows "(status s' = Matched (index best + 1) (score best) \<or>
      status s' = NoMatch (index best + 1) (score best)) \<and>
    (0 \<le> index best \<and> index best < int (length (refSamples s)) \<longrightarrow>
       (\<exists>j<length scores. gt (scores ! j) (Fin (- 1)))) \<and>
    ((\<forall>j<length scores. \<not> gt (scores ! j) (Fin (- 1))) \<longrightarrow>
       index best = - 1 \<and> score best = Fin (- 1) \<and> status s' = NoMatch 0 (Fin (- 1)))"
proof -
  from analyzeAndCompare_run [OF refs pop feats] run scores best
  have s': "s' = decide best (passed env 0 s)"
    by simp
  have st: "status s' = Matched (index best + 1) (score best) \<or>
      status s' = NoMatch (index best + 1) (score best)"
    using s' by (simp add: decide_def)
  from bestOf_search [of scores] best
  have cases: "(\<forall>j<length scores. \<not> gt (scores ! j) (Fin (- 1))) \<and> best = \<lparr>score = Fin (- 1), index = - 1\<rparr> \<or>
     (\<exists>k<length scores. best = \<lparr>score = scores ! k, index = int k\<rparr> \<and> gt (scores ! k) (Fin (- 1)))"
    by auto
  have valid: "0 \<le> index best \<and> index best < int (length (refSamples s)) \<longrightarrow>
       (\<exists>j<length scores. gt (scores ! j) (Fin (- 1)))"
    using cases by auto
  have sentinel: "(\<forall>j<length scores. \<not> gt (scores ! j) (Fin (- 1))) \<longrightarrow>
       index best = - 1 \<and> score best = Fin (- 1) \<and> status s' = NoMatch 0 (Fin (- 1))"
  proof
    assume none: "\<forall>j<length scores. \<not> gt (scores ! j) (Fin (- 1))"
    with cases have "best = \<lparr>score = Fin (- 1), index = - 1\<rparr>"
      by auto
    then show "index best = - 1 \<and> score best = Fin (- 1) \<and> status s' = NoMatch 0 (Fin (- 1))"
      using s' by (simp add: decide_def SIMILARITY_THRESHOLD_def)
  qed
  from st valid sentinel show ?thesis
    by blast
qed

theorem bestMatch_sentinel_index_witness:
  "refSamples (initial [[Fin (- 1)], [Fin 0]]) \<noteq> [] \<and>
   getFeatures identityEnv [Fin 1] = Some [Fin 1] \<and>
   map (referenceFeatures identityEnv) (refSamples (initial [[Fin (- 1)], [Fin 0]])) =
     map Some [[Fin (- 1)], [Fin 0]] \<and>
   map (cosineSimilarity [Fin 1]) [[Fin (- 1)], [Fin 0]] = [Fin (- 1), NaN] \<and>
   bestOf [Fin (- 1), NaN] 0 \<lparr>score = Fin (- 1), index = - 1\<rparr> = \<lparr>score = Fin (- 1), index = - 1\<rparr> \<and>
   status (fst (analyzeAndCompare identityEnv [Fin 1] (initial [[Fin (- 1)], [Fin 0]]))) =
     NoMatch 0 (Fin (- 1))"
  using bestMatch_sentinel_index [of "initial [[Fin (- 1)], [Fin 0]]" identityEnv "[Fin 1]" "[Fin 1]"
      "[[Fin (- 1)], [Fin 0]]" "[Fin (- 1), NaN]" "\<lparr>score = Fin (- 1), index = - 1\<rparr>"
      "fst (analyzeAndCompare identityEnv [Fin 1] (initial [[Fin (- 1)], [Fin 0]]))"
      "snd (analyzeAndCompare identityEnv [Fin 1] (initial [[Fin (- 1)], [Fin 0]]))"]
  by (simp add: engine_simps cosineSimilarity_opposite)

end
